theory Spec2Isabelle
  imports Main "HOL-Library.Word"
begin

section \<open>The MNIST dataset builder (data/mnist_dataset_builder.py)\<close>

text \<open>
  The module reads the two IDX files of the MNIST distribution: it checks their
  headers with its own code (\<open>read32\<close>, \<open>check_image_file_header\<close>,
  \<open>check_labels_file_header\<close>) and hands the record decoding to TensorFlow
  (\<open>FixedLengthRecordDataset\<close>, \<open>map\<close>, \<open>Dataset.zip\<close>).
\<close>

subsection \<open>Bytes, files and Python values\<close>

type_synonym byte = "8 word"
type_synonym uint32 = "32 word"

text \<open>
  The state of the file system after \<open>download\<close> has run: every path names the
  bytes stored under it. The network fetch itself is not modelled.
\<close>

type_synonym filesystem = "string \<Rightarrow> byte list"

text \<open>
  The exceptions the module can raise. The two \<open>ValueError\<close>s of the header checks
  differ by their message; numpy raises the third one when the buffer handed to
  \<open>frombuffer\<close> is not a whole number of elements, and \<open>IndexError\<close> when element
  0 of an empty array is taken. \<open>InvalidArgumentError\<close> is TensorFlow's.
\<close>

datatype message =
    Invalid_magic_number uint32 string
  | Expected_28x28_images string uint32 uint32
  | Buffer_size_must_be_a_multiple_of_element_size

datatype error =
    ValueError message
  | IndexError
  | NameError string
  | TypeError
  | InvalidArgumentError

datatype pyval = PyNone | PyInt int | PyStr string | PyTuple "pyval list" | PyObject string

subsection \<open>An open binary file\<close>

record gfile =
  name :: string
  content :: "byte list"
  offset :: nat

definition gfile_Open :: "filesystem \<Rightarrow> string \<Rightarrow> gfile" where
  "gfile_Open fs filename = \<lparr>name = filename, content = fs filename, offset = 0\<rparr>"

text \<open>\<open>f.read(n)\<close>: the next \<open>n\<close> bytes, or as many as are left; the cursor moves
  past the bytes returned.\<close>

definition read :: "gfile \<Rightarrow> nat \<Rightarrow> byte list \<times> gfile" where
  "read f n =
     (let buf = take n (drop (offset f) (content f))
      in (buf, f\<lparr>offset := offset f + length buf\<rparr>))"

subsection \<open>read32\<close>

text \<open>One big-endian unsigned 32-bit element: the first byte is the most significant.\<close>

definition be_uint32 :: "byte \<Rightarrow> byte \<Rightarrow> byte \<Rightarrow> byte \<Rightarrow> uint32" where
  "be_uint32 a b c d =
     push_bit 24 (ucast a) + push_bit 16 (ucast b) + push_bit 8 (ucast c) + ucast d"

text \<open>\<open>np.frombuffer(buf, dtype=dt)\<close> with \<open>dt\<close> the big-endian \<open>uint32\<close>.\<close>

fun elements_be :: "byte list \<Rightarrow> uint32 list" where
  "elements_be (a # b # c # d # rest) = be_uint32 a b c d # elements_be rest"
| "elements_be _ = []"

definition frombuffer :: "byte list \<Rightarrow> error + uint32 list" where
  "frombuffer buf =
     (if length buf mod 4 \<noteq> 0
      then Inl (ValueError Buffer_size_must_be_a_multiple_of_element_size)
      else Inr (elements_be buf))"

text \<open>\<open>array[0]\<close>.\<close>

definition index0 :: "'a list \<Rightarrow> error + 'a" where
  "index0 xs = (case xs of [] \<Rightarrow> Inl IndexError | x # _ \<Rightarrow> Inr x)"

definition read32 :: "gfile \<Rightarrow> (error + uint32) \<times> gfile" where
  "read32 bytestream =
     (let (buf, bytestream') = read bytestream 4
      in (case frombuffer buf of
            Inl e \<Rightarrow> (Inl e, bytestream')
          | Inr arr \<Rightarrow> (index0 arr, bytestream')))"

subsection \<open>The header checks\<close>

text \<open>The body of the \<open>with\<close> block of \<open>check_image_file_header\<close>, on the open
  file: the result, and the file as the block leaves it.\<close>

definition image_header_block :: "gfile \<Rightarrow> (error + pyval) \<times> gfile" where
  "image_header_block f =
     (case read32 f of
        (Inl e, f1) \<Rightarrow> (Inl e, f1)
      | (Inr magic, f1) \<Rightarrow>
     (case read32 f1 of
        (Inl e, f2) \<Rightarrow> (Inl e, f2)
      | (Inr num_images, f2) \<Rightarrow>
     (case read32 f2 of
        (Inl e, f3) \<Rightarrow> (Inl e, f3)
      | (Inr rows, f3) \<Rightarrow>
     (case read32 f3 of
        (Inl e, f4) \<Rightarrow> (Inl e, f4)
      | (Inr cols, f4) \<Rightarrow>
          if magic \<noteq> 2051 then (Inl (ValueError (Invalid_magic_number magic (name f4))), f4)
          else if rows \<noteq> 28 \<or> cols \<noteq> 28
          then (Inl (ValueError (Expected_28x28_images (name f4) rows cols)), f4)
          else (Inr PyNone, f4)))))"

definition check_image_file_header :: "filesystem \<Rightarrow> string \<Rightarrow> error + pyval" where
  "check_image_file_header fs filename = fst (image_header_block (gfile_Open fs filename))"

definition labels_header_block :: "gfile \<Rightarrow> (error + pyval) \<times> gfile" where
  "labels_header_block f =
     (case read32 f of
        (Inl e, f1) \<Rightarrow> (Inl e, f1)
      | (Inr magic, f1) \<Rightarrow>
     (case read32 f1 of
        (Inl e, f2) \<Rightarrow> (Inl e, f2)
      | (Inr num_items, f2) \<Rightarrow>
          if magic \<noteq> 2049 then (Inl (ValueError (Invalid_magic_number magic (name f2))), f2)
          else (Inr PyNone, f2)))"

definition check_labels_file_header :: "filesystem \<Rightarrow> string \<Rightarrow> error + pyval" where
  "check_labels_file_header fs filename = fst (labels_header_block (gfile_Open fs filename))"

subsection \<open>TensorFlow datasets\<close>

text \<open>
  A dataset is consumed through an iterator: a state, and \<open>get_next\<close>, which
  either yields an element and the next state, reports the end of the sequence, or
  raises. Nothing is read before an element is asked for.
\<close>

datatype ('a, 's) step = Element 'a 's | EndOfSequence | Failure error

record ('a, 's) tf_dataset =
  get_next :: "'s \<Rightarrow> ('a, 's) step"
  initial :: 's

text \<open>
  \<open>tf.data.FixedLengthRecordDataset(filename, record_bytes, header_bytes)\<close>: the
  iterator's state is the read position; it starts behind the header and each
  element is the next \<open>record_bytes\<close> bytes. TensorFlow's kernel is not part of the
  repository. It looks at the size of the file before it reads: when the bytes
  behind the header are not a whole number of records, every request raises
  \<open>InvalidArgumentError\<close> and no element is yielded. (The module builds its
  datasets after the header checks, so a file shorter than its header does not
  get here.)
\<close>

definition FixedLengthRecordDataset ::
  "filesystem \<Rightarrow> string \<Rightarrow> nat \<Rightarrow> nat \<Rightarrow> (byte list, nat) tf_dataset" where
  "FixedLengthRecordDataset fs filename record_bytes header_bytes =
     \<lparr>get_next = (\<lambda>cursor.
        let file = fs filename in
        if record_bytes = 0 then Failure InvalidArgumentError
        else if length file < header_bytes \<or> (length file - header_bytes) mod record_bytes \<noteq> 0
        then Failure InvalidArgumentError
        else if cursor + record_bytes \<le> length file
        then Element (take record_bytes (drop cursor file)) (cursor + record_bytes)
        else EndOfSequence),
      initial = header_bytes\<rparr>"

text \<open>\<open>dataset.map(f)\<close>: \<open>f\<close> is applied to an element when it is asked for.\<close>

definition Dataset_map :: "('a \<Rightarrow> error + 'b) \<Rightarrow> ('a, 's) tf_dataset \<Rightarrow> ('b, 's) tf_dataset" where
  "Dataset_map f ds =
     \<lparr>get_next = (\<lambda>s.
        case get_next ds s of
          Element x s' \<Rightarrow> (case f x of Inl e \<Rightarrow> Failure e | Inr y \<Rightarrow> Element y s')
        | EndOfSequence \<Rightarrow> EndOfSequence
        | Failure e \<Rightarrow> Failure e),
      initial = initial ds\<rparr>"

text \<open>\<open>tf.data.Dataset.zip((a, b))\<close>: one element of \<open>a\<close>, then one of \<open>b\<close>; the
  sequence ends with the first component that ends.\<close>

definition Dataset_zip :: "('a, 's) tf_dataset \<Rightarrow> ('b, 't) tf_dataset \<Rightarrow> ('a \<times> 'b, 's \<times> 't) tf_dataset" where
  "Dataset_zip a b =
     \<lparr>get_next = (\<lambda>(s, t).
        case get_next a s of
          Element x s' \<Rightarrow>
            (case get_next b t of
               Element y t' \<Rightarrow> Element (x, y) (s', t')
             | EndOfSequence \<Rightarrow> EndOfSequence
             | Failure e \<Rightarrow> Failure e)
        | EndOfSequence \<Rightarrow> EndOfSequence
        | Failure e \<Rightarrow> Failure e),
      initial = (initial a, initial b)\<rparr>"

text \<open>A consumer that asks for an element \<open>k\<close> times: the elements it got, and how
  it stopped.\<close>

datatype ending = Pending | Exhausted | Raised error

fun consume :: "nat \<Rightarrow> ('a, 's) tf_dataset \<Rightarrow> 's \<Rightarrow> 'a list \<times> ending" where
  "consume 0 ds s = ([], Pending)"
| "consume (Suc k) ds s =
     (case get_next ds s of
        Element x s' \<Rightarrow> (case consume k ds s' of (xs, e) \<Rightarrow> (x # xs, e))
      | EndOfSequence \<Rightarrow> ([], Exhausted)
      | Failure e \<Rightarrow> ([], Raised e))"

subsection \<open>dataset\<close>

text \<open>
  \<open>float32\<close> arithmetic is not modelled: the cast of a byte to \<open>float32\<close> and the
  division by \<open>255.0\<close> are parameters.
\<close>

record 'f float32_ops =
  cast :: "byte \<Rightarrow> 'f"
  div_255 :: "'f \<Rightarrow> 'f"

text \<open>\<open>decode_raw\<close> turns the record into its bytes, \<open>reshape\<close> to \<open>[784]\<close> needs
  784 of them.\<close>

definition decode_image :: "'f float32_ops \<Rightarrow> byte list \<Rightarrow> error + 'f list" where
  "decode_image ops raw =
     (let pixels = map (cast ops) raw
      in if length pixels = 784 then Inr (map (div_255 ops) pixels)
         else Inl InvalidArgumentError)"

text \<open>\<open>reshape\<close> to a scalar needs exactly one byte.\<close>

definition decode_label :: "byte list \<Rightarrow> error + int" where
  "decode_label label = (case label of [b] \<Rightarrow> Inr (uint b) | _ \<Rightarrow> Inl InvalidArgumentError)"

text \<open>\<open>os.path.join(directory, filename)\<close>; the file is there once \<open>download\<close>
  returns.\<close>

definition download :: "string \<Rightarrow> string \<Rightarrow> string" where
  "download directory filename =
     (if filename \<noteq> [] \<and> hd filename = CHR ''/'' then filename
      else if directory = [] \<or> last directory = CHR ''/'' then directory @ filename
      else directory @ ''/'' @ filename)"

definition dataset_images ::
  "'f float32_ops \<Rightarrow> filesystem \<Rightarrow> string
     \<Rightarrow> ('f list, nat) tf_dataset" where
  "dataset_images ops fs images_file =
     Dataset_map (decode_image ops) (FixedLengthRecordDataset fs images_file (28 * 28) 16)"

definition dataset_labels ::
  "filesystem \<Rightarrow> string \<Rightarrow> (int, nat) tf_dataset" where
  "dataset_labels fs labels_file =
     Dataset_map decode_label (FixedLengthRecordDataset fs labels_file 1 8)"

definition dataset ::
  "'f float32_ops \<Rightarrow> filesystem
     \<Rightarrow> string \<Rightarrow> string \<Rightarrow> string \<Rightarrow> error + ('f list \<times> int, nat \<times> nat) tf_dataset" where
  "dataset ops fs directory images_file labels_file =
     (let images_file = download directory images_file;
          labels_file = download directory labels_file
      in case check_image_file_header fs images_file of
           Inl e \<Rightarrow> Inl e
         | Inr _ \<Rightarrow>
        (case check_labels_file_header fs labels_file of
           Inl e \<Rightarrow> Inl e
         | Inr _ \<Rightarrow>
             Inr (Dataset_zip (dataset_images ops fs images_file)
                              (dataset_labels fs labels_file))))"

subsection \<open>autoencoder\_dataset\<close>

text \<open>
  The function binds \<open>directory\<close>, \<open>images_file\<close>, \<open>decode_image\<close>,
  \<open>decode_label\<close>, \<open>images\<close> and \<open>labels\<close>; \<open>labels_file\<close> is not among them,
  so Python looks it up among the module's global names (it is no builtin).
\<close>

definition module_globals :: "string list" where
  "module_globals =
     [''argparse'', ''gzip'', ''os'', ''shutil'', ''tempfile'', ''urllib'', ''np'', ''tf'',
      ''read32'', ''check_image_file_header'', ''check_labels_file_header'', ''download'',
      ''dataset'', ''autoencoder_dataset'', ''train_dataset'', ''test_dataset'',
      ''parse_args'', ''main'']"

definition load_global :: "string \<Rightarrow> error + pyval" where
  "load_global x = (if x \<in> set module_globals then Inr (PyObject x) else Inl (NameError x))"

definition as_filename :: "pyval \<Rightarrow> error + string" where
  "as_filename v = (case v of PyStr p \<Rightarrow> Inr p | _ \<Rightarrow> Inl TypeError)"

definition autoencoder_dataset ::
  "'f float32_ops \<Rightarrow> filesystem
     \<Rightarrow> string \<Rightarrow> string \<Rightarrow> error + ('f list \<times> int, nat \<times> nat) tf_dataset" where
  "autoencoder_dataset ops fs directory images_file =
     (let images_file = download directory images_file
      in case check_image_file_header fs images_file of
           Inl e \<Rightarrow> Inl e
         | Inr _ \<Rightarrow>
        (case load_global ''labels_file'' of
           Inl e \<Rightarrow> Inl e
         | Inr v \<Rightarrow>
        (case as_filename v of
           Inl e \<Rightarrow> Inl e
         | Inr labels_file \<Rightarrow>
        (case check_labels_file_header fs labels_file of
           Inl e \<Rightarrow> Inl e
         | Inr _ \<Rightarrow>
             Inr (Dataset_zip (dataset_images ops fs images_file)
                              (dataset_labels fs labels_file))))))"

subsection \<open>The words of the specification\<close>

text \<open>
  The specification names three kinds of failure. In the module they are the
  \<open>ValueError\<close> with the magic-number message, the \<open>ValueError\<close> with the
  28x28 message, and what numpy raises on a buffer of fewer than four bytes (an
  \<open>IndexError\<close> for none, a \<open>ValueError\<close> for one to three).
\<close>

fun InvalidMagicError :: "error \<Rightarrow> bool" where
  "InvalidMagicError (ValueError (Invalid_magic_number m n)) = True"
| "InvalidMagicError _ = False"

fun InvalidDimensionsError :: "error \<Rightarrow> bool" where
  "InvalidDimensionsError (ValueError (Expected_28x28_images n r c)) = True"
| "InvalidDimensionsError _ = False"

fun TruncatedReadError :: "error \<Rightarrow> bool" where
  "TruncatedReadError IndexError = True"
| "TruncatedReadError (ValueError Buffer_size_must_be_a_multiple_of_element_size) = True"
| "TruncatedReadError _ = False"

definition raises :: "(error \<Rightarrow> bool) \<Rightarrow> error + 'a \<Rightarrow> bool" where
  "raises kind r = (case r of Inl e \<Rightarrow> kind e | Inr _ \<Rightarrow> False)"

text \<open>The big-endian 32-bit integer that starts at byte \<open>k\<close> of a file.\<close>

definition word_at :: "byte list \<Rightarrow> nat \<Rightarrow> uint32" where
  "word_at bs k = be_uint32 (bs ! k) (bs ! (k + 1)) (bs ! (k + 2)) (bs ! (k + 3))"

text \<open>What \<open>read32\<close> raises when \<open>n < 4\<close> bytes are left.\<close>

definition short_read_error :: "nat \<Rightarrow> error" where
  "short_read_error n =
     (if n = 0 then IndexError
      else ValueError Buffer_size_must_be_a_multiple_of_element_size)"

text \<open>The four bytes of a big-endian 32-bit header field, and example files.\<close>

definition be_bytes :: "nat \<Rightarrow> byte list" where
  "be_bytes n = [of_nat (n div 16777216), of_nat (n div 65536), of_nat (n div 256), of_nat n]"

definition idx_image_file :: "nat \<Rightarrow> nat \<Rightarrow> nat \<Rightarrow> nat \<Rightarrow> byte list \<Rightarrow> byte list" where
  "idx_image_file magic num_images rows cols body =
     be_bytes magic @ be_bytes num_images @ be_bytes rows @ be_bytes cols @ body"

definition idx_labels_file :: "nat \<Rightarrow> nat \<Rightarrow> byte list \<Rightarrow> byte list" where
  "idx_labels_file magic num_items body = be_bytes magic @ be_bytes num_items @ body"


text \<open>Record \<open>i\<close> of a file with a header of \<open>header_bytes\<close> bytes and records
  of \<open>record_bytes\<close> bytes, and the pixels of a record.\<close>

definition record_at :: "byte list \<Rightarrow> nat \<Rightarrow> nat \<Rightarrow> nat \<Rightarrow> byte list" where
  "record_at file header_bytes record_bytes i =
     take record_bytes (drop (header_bytes + record_bytes * i) file)"

definition pixels :: "'f float32_ops \<Rightarrow> byte list \<Rightarrow> 'f list" where
  "pixels ops raw = map (div_255 ops) (map (cast ops) raw)"


text \<open>An instance of the pixel operations, for the examples: it keeps the byte's
  value.\<close>

definition example_ops :: "nat float32_ops" where
  "example_ops = \<lparr>cast = unat, div_255 = (\<lambda>x. x)\<rparr>"

section \<open>Properties\<close>

subsection \<open>Big-endian words\<close>

lemma unat_byte_lt: "unat (a::byte) < 256"
  using unsigned_less[of a, where 'a=nat] by simp

lemma unat_ucast_byte: "unat (ucast (a::byte) :: uint32) = unat a"
proof -
  have "unat a < 2 ^ 32" using unat_byte_lt[of a] by simp
  then show ?thesis
    by (simp add: unsigned_ucast_eq take_bit_nat_eq_self)
qed

lemma unat_push_byte:
  assumes "k \<le> 24"
  shows "unat (push_bit k (ucast (a::byte)) :: uint32) = unat a * 2 ^ k"
proof -
  have "(2::nat) ^ k \<le> 2 ^ 24"
    using assms by (rule power_increasing) simp
  moreover have "unat a \<le> 255"
    using unat_byte_lt[of a] by simp
  ultimately have "unat a * 2 ^ k \<le> 255 * 2 ^ 24"
    by (rule mult_le_mono[rotated])
  then have "unat a * 2 ^ k < 2 ^ 32" by simp
  then have "take_bit 32 (unat a * 2 ^ k) = unat a * 2 ^ k"
    by (simp add: take_bit_nat_eq_self)
  moreover have "unat (push_bit k (ucast a) :: uint32) = take_bit 32 (push_bit k (unat a))"
    unfolding unsigned_push_bit_eq unat_ucast_byte by simp
  ultimately show ?thesis
    by (simp only: push_bit_eq_mult)
qed

lemma unat_be_uint32:
  "unat (be_uint32 a b c d) = unat a * 2 ^ 24 + unat b * 2 ^ 16 + unat c * 2 ^ 8 + unat d"
proof -
  let ?n = "unat a * 2 ^ 24 + unat b * 2 ^ 16 + unat c * 2 ^ 8 + unat d"
  have "unat (be_uint32 a b c d) = ?n mod 2 ^ 32"
    unfolding be_uint32_def
    by (simp add: unat_word_ariths unat_push_byte unat_ucast_byte mod_simps)
  moreover have "?n < 2 ^ 32"
    using unat_byte_lt[of a] unat_byte_lt[of b] unat_byte_lt[of c] unat_byte_lt[of d] by simp
  ultimately show ?thesis by simp
qed

subsection \<open>read32\<close>

lemma take4_drop:
  assumes "k + 4 \<le> length xs"
  shows "take 4 (drop k xs) = [xs ! k, xs ! (k + 1), xs ! (k + 2), xs ! (k + 3)]"
proof -
  have "length (take 4 (drop k xs)) = 4" using assms by simp
  then show ?thesis
    using assms by (auto simp: list_eq_iff_nth_eq less_Suc_eq numeral_eq_Suc add.commute)
qed

lemma read32_enough:
  assumes "offset f + 4 \<le> length (content f)"
  shows "read32 f = (Inr (word_at (content f) (offset f)), f\<lparr>offset := offset f + 4\<rparr>)"
  using assms
  by (simp add: read32_def read_def Let_def take4_drop frombuffer_def index0_def word_at_def)

lemma read32_short:
  assumes "length (content f) < offset f + 4"
  shows "read32 f = (Inl (short_read_error (length (content f) - offset f)),
                     f\<lparr>offset := offset f + (length (content f) - offset f)\<rparr>)"
proof -
  let ?buf = "take 4 (drop (offset f) (content f))"
  have len: "length ?buf = length (content f) - offset f" using assms by simp
  show ?thesis
  proof (cases "length (content f) - offset f = 0")
    case True
    then have "?buf = []" using len by simp
    then show ?thesis using True
      by (simp add: read32_def read_def Let_def frombuffer_def index0_def short_read_error_def)
  next
    case False
    then have "length ?buf mod 4 \<noteq> 0" using len assms by simp
    then show ?thesis using False len
      by (simp add: read32_def read_def Let_def frombuffer_def short_read_error_def)
  qed
qed

lemma TruncatedReadError_short: "TruncatedReadError (short_read_error n)"
  by (simp add: short_read_error_def)

text \<open>C5. \<open>read32\<close> on a file with at least four bytes left returns the four bytes
  at the cursor read as an unsigned big-endian 32-bit integer (the first byte the
  most significant) and moves the cursor by exactly four, changing nothing else;
  with fewer than four bytes left it raises the truncated-read failure, and the
  file's bytes and name stay as they were.\<close>

theorem read32_contract:
  "(offset f + 4 \<le> length (content f) \<longrightarrow>
      length (fst (read f 4)) = 4 \<and>
      read32 f = (Inr (word_at (content f) (offset f)), f\<lparr>offset := offset f + 4\<rparr>) \<and>
      unat (word_at (content f) (offset f)) =
        unat (content f ! offset f) * 2 ^ 24 + unat (content f ! (offset f + 1)) * 2 ^ 16
        + unat (content f ! (offset f + 2)) * 2 ^ 8 + unat (content f ! (offset f + 3))) \<and>
   (length (content f) < offset f + 4 \<longrightarrow>
      raises TruncatedReadError (fst (read32 f)) \<and>
      content (snd (read32 f)) = content f \<and> name (snd (read32 f)) = name f)"
proof (intro conjI impI)
  assume "offset f + 4 \<le> length (content f)"
  then show "length (fst (read f 4)) = 4"
    by (simp add: read_def Let_def)
next
  assume "offset f + 4 \<le> length (content f)"
  then show "read32 f = (Inr (word_at (content f) (offset f)), f\<lparr>offset := offset f + 4\<rparr>)"
    by (rule read32_enough)
next
  show "unat (word_at (content f) (offset f)) =
        unat (content f ! offset f) * 2 ^ 24 + unat (content f ! (offset f + 1)) * 2 ^ 16
        + unat (content f ! (offset f + 2)) * 2 ^ 8 + unat (content f ! (offset f + 3))"
    by (simp only: word_at_def unat_be_uint32)
next
  assume short: "length (content f) < offset f + 4"
  show "raises TruncatedReadError (fst (read32 f))"
    by (simp add: read32_short[OF short] raises_def TruncatedReadError_short)
  show "content (snd (read32 f)) = content f"
    by (simp add: read32_short[OF short])
  show "name (snd (read32 f)) = name f"
    by (simp add: read32_short[OF short])
qed

theorem read32_contract_witness:
  "read32 \<lparr>name = ''f'', content = [0, 0, 8, 3, 9], offset = 0\<rparr>
     = (Inr 2051, \<lparr>name = ''f'', content = [0, 0, 8, 3, 9], offset = 4\<rparr>) \<and>
   raises TruncatedReadError (fst (read32 \<lparr>name = ''f'', content = [0, 0, 8, 3, 9], offset = 4\<rparr>)) \<and>
   raises TruncatedReadError (fst (read32 \<lparr>name = ''f'', content = [0, 0, 8, 3, 9], offset = 5\<rparr>))"
  using read32_contract [of "\<lparr>name = ''f'', content = [0, 0, 8, 3, 9], offset = 0\<rparr>"]
        read32_contract [of "\<lparr>name = ''f'', content = [0, 0, 8, 3, 9], offset = 4\<rparr>"]
        read32_contract [of "\<lparr>name = ''f'', content = [0, 0, 8, 3, 9], offset = 5\<rparr>"]
  by (simp add: word_at_def be_uint32_def)


subsection \<open>The header checks\<close>

lemma image_header_block_full:
  assumes "16 \<le> length (content f)" "offset f = 0"
  shows "image_header_block f =
    (if word_at (content f) 0 \<noteq> 2051
     then Inl (ValueError (Invalid_magic_number (word_at (content f) 0) (name f)))
     else if word_at (content f) 8 \<noteq> 28 \<or> word_at (content f) 12 \<noteq> 28
     then Inl (ValueError (Expected_28x28_images (name f) (word_at (content f) 8) (word_at (content f) 12)))
     else Inr PyNone, f\<lparr>offset := 16\<rparr>)"
  using assms by (simp add: image_header_block_def read32_enough)

lemma image_header_block_short:
  assumes "length (content f) < 16" "offset f = 0"
  shows "image_header_block f =
    (Inl (short_read_error (length (content f) mod 4)), f\<lparr>offset := length (content f)\<rparr>)"
proof -
  consider "length (content f) < 4" | "4 \<le> length (content f)" "length (content f) < 8"
    | "8 \<le> length (content f)" "length (content f) < 12"
    | "12 \<le> length (content f)" "length (content f) < 16"
    using assms by linarith
  then show ?thesis
  proof cases
    case 1
    then show ?thesis using assms
      by (simp add: image_header_block_def read32_short)
  next
    case 2
    then have "length (content f) - 4 = length (content f) mod 4" by presburger
    with 2 show ?thesis using assms
      by (simp add: image_header_block_def read32_short read32_enough)
  next
    case 3
    then have "length (content f) - 8 = length (content f) mod 4" by presburger
    with 3 show ?thesis using assms
      by (simp add: image_header_block_def read32_short read32_enough)
  next
    case 4
    then have "length (content f) - 12 = length (content f) mod 4" by presburger
    with 4 show ?thesis using assms
      by (simp add: image_header_block_def read32_short read32_enough)
  qed
qed

lemma labels_header_block_full:
  assumes "8 \<le> length (content f)" "offset f = 0"
  shows "labels_header_block f =
    (if word_at (content f) 0 \<noteq> 2049
     then Inl (ValueError (Invalid_magic_number (word_at (content f) 0) (name f)))
     else Inr PyNone, f\<lparr>offset := 8\<rparr>)"
  using assms by (simp add: labels_header_block_def read32_enough)

lemma labels_header_block_short:
  assumes "length (content f) < 8" "offset f = 0"
  shows "labels_header_block f =
    (Inl (short_read_error (length (content f) mod 4)), f\<lparr>offset := length (content f)\<rparr>)"
proof (cases "length (content f) < 4")
  case True
  then show ?thesis using assms
    by (simp add: labels_header_block_def read32_short)
next
  case False
  then have "length (content f) - 4 = length (content f) mod 4"
    using assms by presburger
  with False show ?thesis using assms
    by (simp add: labels_header_block_def read32_short read32_enough)
qed

lemma check_image_file_header_full:
  assumes "16 \<le> length (fs filename)"
  shows "check_image_file_header fs filename =
    (if word_at (fs filename) 0 \<noteq> 2051
     then Inl (ValueError (Invalid_magic_number (word_at (fs filename) 0) filename))
     else if word_at (fs filename) 8 \<noteq> 28 \<or> word_at (fs filename) 12 \<noteq> 28
     then Inl (ValueError (Expected_28x28_images filename (word_at (fs filename) 8)
                             (word_at (fs filename) 12)))
     else Inr PyNone)"
  using assms
  by (simp add: check_image_file_header_def gfile_Open_def image_header_block_full)

lemma check_image_file_header_short:
  assumes "length (fs filename) < 16"
  shows "check_image_file_header fs filename = Inl (short_read_error (length (fs filename) mod 4))"
  using assms
  by (simp add: check_image_file_header_def gfile_Open_def image_header_block_short)

lemma check_labels_file_header_full:
  assumes "8 \<le> length (fs filename)"
  shows "check_labels_file_header fs filename =
    (if word_at (fs filename) 0 \<noteq> 2049
     then Inl (ValueError (Invalid_magic_number (word_at (fs filename) 0) filename))
     else Inr PyNone)"
  using assms
  by (simp add: check_labels_file_header_def gfile_Open_def labels_header_block_full)

lemma check_labels_file_header_short:
  assumes "length (fs filename) < 8"
  shows "check_labels_file_header fs filename = Inl (short_read_error (length (fs filename) mod 4))"
  using assms
  by (simp add: check_labels_file_header_def gfile_Open_def labels_header_block_short)

text \<open>Example files.\<close>

lemma length_be_bytes: "length (be_bytes n) = 4"
  by (simp add: be_bytes_def)

lemma length_image_file: "length (idx_image_file m n r c body) = 16 + length body"
  by (simp add: idx_image_file_def length_be_bytes)

lemma length_labels_file: "length (idx_labels_file m n body) = 8 + length body"
  by (simp add: idx_labels_file_def length_be_bytes)

lemma word_at_image_file:
  "word_at (idx_image_file 2051 n 28 28 body) 0 = 2051"
  "word_at (idx_image_file 2051 n 28 28 body) 8 = 28"
  "word_at (idx_image_file 2051 n 28 28 body) 12 = 28"
  "word_at (idx_image_file 2049 n 28 28 body) 0 = 2049"
  "word_at (idx_image_file 2051 n 28 27 body) 0 = 2051"
  "word_at (idx_image_file 2051 n 28 27 body) 8 = 28"
  "word_at (idx_image_file 2051 n 28 27 body) 12 = 27"
  "word_at (idx_image_file 2049 n 28 27 body) 0 = 2049"
  by (simp_all add: word_at_def idx_image_file_def be_bytes_def be_uint32_def nth_append)

lemma word_at_labels_file:
  "word_at (idx_labels_file 2049 n body) 0 = 2049"
  "word_at (idx_labels_file 2051 n body) 0 = 2051"
  by (simp_all add: word_at_def idx_labels_file_def be_bytes_def be_uint32_def nth_append)

text \<open>C1. On a file of at least 16 bytes, whose first, third and fourth big-endian
  words are magic, rows and cols: \<open>check_image_file_header\<close> raises the
  magic-number failure exactly when magic is not 2051 (whatever rows and cols are,
  so the magic is decided first); with magic 2051 it raises the dimensions failure
  exactly when rows or cols is not 28; and it raises nothing exactly when magic is
  2051 and rows and cols are 28.\<close>

theorem check_image_file_header_verdict:
  assumes "16 \<le> length (fs filename)"
  shows "(raises InvalidMagicError (check_image_file_header fs filename)
            \<longleftrightarrow> word_at (fs filename) 0 \<noteq> 2051) \<and>
         (word_at (fs filename) 0 \<noteq> 2051 \<longrightarrow>
            check_image_file_header fs filename
              = Inl (ValueError (Invalid_magic_number (word_at (fs filename) 0) filename))) \<and>
         (word_at (fs filename) 0 = 2051 \<longrightarrow>
            (raises InvalidDimensionsError (check_image_file_header fs filename)
               \<longleftrightarrow> word_at (fs filename) 8 \<noteq> 28 \<or> word_at (fs filename) 12 \<noteq> 28)) \<and>
         ((\<exists>v. check_image_file_header fs filename = Inr v)
            \<longleftrightarrow> word_at (fs filename) 0 = 2051 \<and> word_at (fs filename) 8 = 28
                \<and> word_at (fs filename) 12 = 28)"
  using assms by (simp add: check_image_file_header_full raises_def)

theorem check_image_file_header_verdict_witness:
  "raises InvalidMagicError
     (check_image_file_header (\<lambda>_. idx_image_file 2049 3 28 27 []) ''labels'') \<and>
   raises InvalidDimensionsError
     (check_image_file_header (\<lambda>_. idx_image_file 2051 3 28 27 []) ''images'') \<and>
   (\<exists>v. check_image_file_header (\<lambda>_. idx_image_file 2051 3 28 28 []) ''images'' = Inr v)"
  using check_image_file_header_verdict [of "\<lambda>_. idx_image_file 2049 3 28 27 []" "''labels''"]
        check_image_file_header_verdict [of "\<lambda>_. idx_image_file 2051 3 28 27 []" "''images''"]
        check_image_file_header_verdict [of "\<lambda>_. idx_image_file 2051 3 28 28 []" "''images''"]
  by (simp add: length_image_file word_at_image_file raises_def)


text \<open>C2, as the module has it. On a file with a valid image header (at least 16
  bytes, magic 2051, rows and cols 28) \<open>check_image_file_header\<close> returns
  \<open>None\<close>, and on a file with a valid label header (at least 8 bytes, magic 2049)
  \<open>check_labels_file_header\<close> returns \<open>None\<close>: the item count and the
  dimensions are read and not returned.\<close>

theorem header_checks_return_None:
  "(16 \<le> length (fs images) \<and> word_at (fs images) 0 = 2051 \<and> word_at (fs images) 8 = 28
      \<and> word_at (fs images) 12 = 28 \<longrightarrow> check_image_file_header fs images = Inr PyNone) \<and>
   (8 \<le> length (fs labels) \<and> word_at (fs labels) 0 = 2049
      \<longrightarrow> check_labels_file_header fs labels = Inr PyNone)"
  by (simp add: check_image_file_header_full check_labels_file_header_full)

theorem header_checks_return_None_witness:
  "check_image_file_header (\<lambda>_. idx_image_file 2051 1 28 28 []) ''images'' = Inr PyNone \<and>
   check_labels_file_header (\<lambda>_. idx_labels_file 2049 1 []) ''labels'' = Inr PyNone"
  using header_checks_return_None
          [of "\<lambda>_. idx_image_file 2051 1 28 28 []" "''images''" "''labels''"]
        header_checks_return_None
          [of "\<lambda>_. idx_labels_file 2049 1 []" "''images''" "''labels''"]
  by (simp add: length_image_file length_labels_file word_at_image_file word_at_labels_file)

text \<open>C2 as the specification states it fails: on the valid image header
  (2051, 1, 28, 28) the result is not the triple (1, 28, 28), and on the valid label
  header (2049, 1) it is not the count 1.\<close>

theorem header_checks_return_counterexample:
  "word_at (idx_image_file 2051 1 28 28 []) 4 = 1 \<and>
   check_image_file_header (\<lambda>_. idx_image_file 2051 1 28 28 []) ''images''
     \<noteq> Inr (PyTuple [PyInt 1, PyInt 28, PyInt 28]) \<and>
   word_at (idx_labels_file 2049 1 []) 4 = 1 \<and>
   check_labels_file_header (\<lambda>_. idx_labels_file 2049 1 []) ''labels'' \<noteq> Inr (PyInt 1)"
proof -
  have "word_at (idx_image_file 2051 1 28 28 []) 4 = 1"
    by (simp add: word_at_def idx_image_file_def be_bytes_def be_uint32_def)
  moreover have "word_at (idx_labels_file 2049 1 []) 4 = 1"
    by (simp add: word_at_def idx_labels_file_def be_bytes_def be_uint32_def)
  moreover have "check_image_file_header (\<lambda>_. idx_image_file 2051 1 28 28 []) ''images'' = Inr PyNone"
    by (simp add: check_image_file_header_full length_image_file word_at_image_file)
  moreover have "check_labels_file_header (\<lambda>_. idx_labels_file 2049 1 []) ''labels'' = Inr PyNone"
    by (simp add: check_labels_file_header_full length_labels_file word_at_labels_file)
  ultimately show ?thesis by simp
qed

subsection \<open>Running a check again\<close>

lemma image_header_block_keeps_file:
  assumes "offset f = 0"
  shows "content (snd (image_header_block f)) = content f \<and>
         name (snd (image_header_block f)) = name f"
proof (cases "16 \<le> length (content f)")
  case True
  then show ?thesis using assms by (simp add: image_header_block_full)
next
  case False
  then show ?thesis using assms by (simp add: image_header_block_short)
qed

lemma labels_header_block_keeps_file:
  assumes "offset f = 0"
  shows "content (snd (labels_header_block f)) = content f \<and>
         name (snd (labels_header_block f)) = name f"
proof (cases "8 \<le> length (content f)")
  case True
  then show ?thesis using assms by (simp add: labels_header_block_full)
next
  case False
  then show ?thesis using assms by (simp add: labels_header_block_short)
qed

lemma rewind_eq:
  assumes "content g = content f" "name g = name f" "offset f = 0"
  shows "g\<lparr>offset := 0\<rparr> = (f::gfile)"
  using assms by simp

text \<open>C8. Running a header check on a file, moving the cursor the check left
  behind back to the start and running the check again gives the result of the
  first run, be it \<open>None\<close> or an error; the check leaves the file's bytes as they
  were. The same holds for a second call of \<open>check_image_file_header\<close> or
  \<open>check_labels_file_header\<close>, which open the file anew.\<close>

theorem header_check_idempotent:
  "fst (image_header_block ((snd (image_header_block (gfile_Open fs filename)))\<lparr>offset := 0\<rparr>))
     = fst (image_header_block (gfile_Open fs filename)) \<and>
   fst (image_header_block ((snd (image_header_block (gfile_Open fs filename)))\<lparr>offset := 0\<rparr>))
     = check_image_file_header fs filename \<and>
   content (snd (image_header_block (gfile_Open fs filename))) = fs filename \<and>
   fst (labels_header_block ((snd (labels_header_block (gfile_Open fs filename)))\<lparr>offset := 0\<rparr>))
     = fst (labels_header_block (gfile_Open fs filename)) \<and>
   fst (labels_header_block ((snd (labels_header_block (gfile_Open fs filename)))\<lparr>offset := 0\<rparr>))
     = check_labels_file_header fs filename \<and>
   content (snd (labels_header_block (gfile_Open fs filename))) = fs filename"
proof -
  let ?f = "gfile_Open fs filename"
  have start: "offset ?f = 0" by (simp add: gfile_Open_def)
  have "(snd (image_header_block ?f))\<lparr>offset := 0\<rparr> = ?f"
    using image_header_block_keeps_file[OF start] start by (intro rewind_eq) simp_all
  moreover have "(snd (labels_header_block ?f))\<lparr>offset := 0\<rparr> = ?f"
    using labels_header_block_keeps_file[OF start] start by (intro rewind_eq) simp_all
  moreover have "content (snd (image_header_block ?f)) = fs filename"
    using image_header_block_keeps_file[OF start] by (simp add: gfile_Open_def)
  moreover have "content (snd (labels_header_block ?f)) = fs filename"
    using labels_header_block_keeps_file[OF start] by (simp add: gfile_Open_def)
  ultimately show ?thesis
    by (simp add: check_image_file_header_def check_labels_file_header_def)
qed

theorem header_check_idempotent_witness:
  "fst (image_header_block
          ((snd (image_header_block (gfile_Open (\<lambda>_. idx_image_file 2051 3 28 28 []) ''images'')))
             \<lparr>offset := 0\<rparr>)) = Inr PyNone \<and>
   fst (labels_header_block
          ((snd (labels_header_block (gfile_Open (\<lambda>_. idx_image_file 2051 3 28 28 []) ''images'')))
             \<lparr>offset := 0\<rparr>)) = Inl (ValueError (Invalid_magic_number 2051 ''images''))"
proof -
  have a: "check_image_file_header (\<lambda>_. idx_image_file 2051 3 28 28 []) ''images'' = Inr PyNone"
    by (simp add: check_image_file_header_full length_image_file word_at_image_file)
  have b: "check_labels_file_header (\<lambda>_. idx_image_file 2051 3 28 28 []) ''images''
             = Inl (ValueError (Invalid_magic_number 2051 ''images''))"
    by (simp add: check_labels_file_header_full length_image_file word_at_image_file)
  show ?thesis
    using header_check_idempotent [of "\<lambda>_. idx_image_file 2051 3 28 28 []" "''images''"]
    unfolding a b by blast
qed


subsection \<open>The item count\<close>

lemma word_at_0_take:
  assumes "4 \<le> length xs"
  shows "word_at xs 0 = word_at (take 4 xs) 0"
  using assms by (simp add: word_at_def)

lemma word_at_drop8:
  assumes "8 + k + 4 \<le> length xs"
  shows "word_at xs (8 + k) = word_at (drop 8 xs) k"
  using assms by (simp add: word_at_def add.assoc)

lemma check_image_file_header_example:
  "check_image_file_header (\<lambda>_. idx_image_file 2051 n 28 28 body) filename = Inr PyNone"
  by (simp add: check_image_file_header_full length_image_file word_at_image_file)

text \<open>C10. Two files of the same length that agree on their first four bytes and
  on every byte from the ninth on (so they differ at most in the item count, bytes
  4 to 7), stored under the same name, get the same result from
  \<open>check_image_file_header\<close>: both pass, or both raise the same error. A file with
  magic 2051 and 28 rows and columns passes whatever count \<open>n\<close> its header declares
  and whatever bytes follow the header.\<close>

theorem image_header_ignores_item_count:
  assumes "length (fs' filename) = length (fs filename)"
    and "take 4 (fs' filename) = take 4 (fs filename)"
    and "drop 8 (fs' filename) = drop 8 (fs filename)"
  shows "check_image_file_header fs' filename = check_image_file_header fs filename \<and>
         check_image_file_header (\<lambda>_. idx_image_file 2051 n 28 28 body) filename = Inr PyNone"
proof (cases "16 \<le> length (fs filename)")
  case True
  then have len': "16 \<le> length (fs' filename)" using assms(1) by simp
  have w0: "word_at (fs' filename) 0 = word_at (fs filename) 0"
    using word_at_0_take[of "fs' filename"] word_at_0_take[of "fs filename"]
      True len' assms(2) by simp
  have w8: "word_at (fs' filename) 8 = word_at (fs filename) 8"
    using word_at_drop8[of 0 "fs' filename"] word_at_drop8[of 0 "fs filename"]
      True len' assms(3) by simp
  have w12: "word_at (fs' filename) 12 = word_at (fs filename) 12"
    using word_at_drop8[of 4 "fs' filename"] word_at_drop8[of 4 "fs filename"]
      True len' assms(3) by simp
  have "check_image_file_header fs' filename = check_image_file_header fs filename"
    unfolding check_image_file_header_full[of fs filename, OF True]
      check_image_file_header_full[of fs' filename, OF len'] w0 w8 w12 ..
  then show ?thesis
    by (simp add: check_image_file_header_example)
next
  case False
  then show ?thesis
    using assms(1) by (simp add: check_image_file_header_short check_image_file_header_example)
qed

theorem image_header_ignores_item_count_witness:
  "check_image_file_header (\<lambda>_. idx_image_file 2051 7 28 28 [1, 2, 3]) ''images''
     = check_image_file_header (\<lambda>_. idx_image_file 2051 0 28 28 [1, 2, 3]) ''images'' \<and>
   check_image_file_header (\<lambda>_. idx_image_file 2051 7 28 28 [1, 2, 3]) ''images'' = Inr PyNone"
proof -
  have "length (idx_image_file 2051 7 28 28 [1, 2, 3]) = length (idx_image_file 2051 0 28 28 [1, 2, 3])"
    and "take 4 (idx_image_file 2051 7 28 28 [1, 2, 3]) = take 4 (idx_image_file 2051 0 28 28 [1, 2, 3])"
    and "drop 8 (idx_image_file 2051 7 28 28 [1, 2, 3]) = drop 8 (idx_image_file 2051 0 28 28 [1, 2, 3])"
    by (simp_all add: idx_image_file_def be_bytes_def)
  then show ?thesis
    using image_header_ignores_item_count
            [of "\<lambda>_. idx_image_file 2051 7 28 28 [1, 2, 3]" "''images''"
                "\<lambda>_. idx_image_file 2051 0 28 28 [1, 2, 3]" 7 "[1, 2, 3]"]
    by blast
qed


subsection \<open>autoencoder\_dataset\<close>

lemma load_global_labels_file: "load_global ''labels_file'' = Inl (NameError ''labels_file'')"
  by (simp add: load_global_def module_globals_def)

text \<open>C9, as the module has it. No call of \<open>autoencoder_dataset\<close> returns a
  dataset. When the image file passes \<open>check_image_file_header\<close>, the call raises
  the \<open>NameError\<close> for \<open>labels_file\<close>; when the image file fails that check, the
  call raises the check's own error, and the name \<open>labels_file\<close> is never
  evaluated.\<close>

theorem autoencoder_dataset_never_returns:
  "(\<exists>e. autoencoder_dataset ops fs directory images_file = Inl e) \<and>
   ((\<exists>v. check_image_file_header fs (download directory images_file) = Inr v) \<longrightarrow>
      autoencoder_dataset ops fs directory images_file = Inl (NameError ''labels_file'')) \<and>
   (\<forall>e. check_image_file_header fs (download directory images_file) = Inl e \<longrightarrow>
      autoencoder_dataset ops fs directory images_file = Inl e)"
  by (cases "check_image_file_header fs (download directory images_file)")
     (simp_all add: autoencoder_dataset_def load_global_labels_file)

theorem autoencoder_dataset_never_returns_witness:
  "autoencoder_dataset example_ops
      (\<lambda>_. idx_image_file 2051 1 28 28 (replicate 784 0)) ''data'' ''images''
     = Inl (NameError ''labels_file'') \<and>
   autoencoder_dataset example_ops
      (\<lambda>_. idx_image_file 2051 1 28 27 (replicate 784 0)) ''data'' ''images''
     = Inl (ValueError (Expected_28x28_images ''data/images'' 28 27))"
proof -
  have "check_image_file_header (\<lambda>_. idx_image_file 2051 1 28 28 (replicate 784 0))
          (download ''data'' ''images'') = Inr PyNone"
    by (simp add: check_image_file_header_full length_image_file word_at_image_file)
  moreover have "check_image_file_header (\<lambda>_. idx_image_file 2051 1 28 27 (replicate 784 0))
          (download ''data'' ''images'')
            = Inl (ValueError (Expected_28x28_images ''data/images'' 28 27))"
    by (simp add: check_image_file_header_full length_image_file word_at_image_file download_def)
  ultimately show ?thesis
    using autoencoder_dataset_never_returns
            [of example_ops "\<lambda>_. idx_image_file 2051 1 28 28 (replicate 784 0)"
                "''data''" "''images''"]
          autoencoder_dataset_never_returns
            [of example_ops "\<lambda>_. idx_image_file 2051 1 28 27 (replicate 784 0)"
                "''data''" "''images''"]
    by blast
qed

text \<open>C9 as stated fails: on an image file whose magic is 2049 the call raises the
  \<open>ValueError\<close> of the image header check, not a \<open>NameError\<close>.\<close>

theorem autoencoder_dataset_counterexample:
  "autoencoder_dataset example_ops
      (\<lambda>_. idx_image_file 2049 1 28 28 (replicate 784 0)) ''data'' ''images''
     = Inl (ValueError (Invalid_magic_number 2049 ''data/images'')) \<and>
   autoencoder_dataset example_ops
      (\<lambda>_. idx_image_file 2049 1 28 28 (replicate 784 0)) ''data'' ''images''
     \<noteq> Inl (NameError ''labels_file'')"
proof -
  have "check_image_file_header (\<lambda>_. idx_image_file 2049 1 28 28 (replicate 784 0))
          (download ''data'' ''images'')
            = Inl (ValueError (Invalid_magic_number 2049 ''data/images''))"
    by (simp add: check_image_file_header_full length_image_file word_at_image_file download_def)
  then show ?thesis
    by (simp add: autoencoder_dataset_def)
qed


subsection \<open>Reading records\<close>

lemma reader_get_next:
  assumes "length (fs p) = hb + rb * n" "0 < rb"
  shows "get_next (FixedLengthRecordDataset fs p rb hb) c =
    (if c + rb \<le> length (fs p) then Element (take rb (drop c (fs p))) (c + rb)
     else EndOfSequence)"
  using assms by (simp add: FixedLengthRecordDataset_def Let_def)

lemma length_record_at:
  assumes "length file = hb + rb * n" "i < n"
  shows "length (record_at file hb rb i) = rb"
proof -
  have "rb * Suc i \<le> rb * n" using assms(2) by (intro mult_le_mono2) simp
  then have "hb + rb * i + rb \<le> length file" using assms(1) by simp
  then show ?thesis by (simp add: record_at_def)
qed

lemma images_get_next:
  assumes "length (fs p) = 16 + 784 * n"
  shows "get_next (dataset_images ops fs p) (16 + 784 * j) =
    (if j < n then Element (pixels ops (record_at (fs p) 16 784 j)) (16 + 784 * Suc j)
     else EndOfSequence)"
proof (cases "j < n")
  case True
  then have len: "length (record_at (fs p) 16 784 j) = 784"
    using assms by (rule length_record_at[rotated])
  have "784 * Suc j \<le> 784 * n" using True by (intro mult_le_mono2) simp
  then have "16 + 784 * j + 784 \<le> length (fs p)" using assms by simp
  then have "get_next (FixedLengthRecordDataset fs p (28 * 28) 16) (16 + 784 * j)
      = Element (record_at (fs p) 16 784 j) (16 + 784 * Suc j)"
    using reader_get_next[of fs p 16 784 n "16 + 784 * j"] assms
    by (simp add: record_at_def)
  then show ?thesis
    using True len by (simp add: dataset_images_def Dataset_map_def decode_image_def pixels_def Let_def)
next
  case False
  then have "784 * n \<le> 784 * j" by simp
  then have "\<not> 16 + 784 * j + 784 \<le> length (fs p)" using assms by simp
  then have "get_next (FixedLengthRecordDataset fs p (28 * 28) 16) (16 + 784 * j)
      = EndOfSequence"
    using reader_get_next[of fs p 16 784 n "16 + 784 * j"] assms by simp
  then show ?thesis
    using False by (simp add: dataset_images_def Dataset_map_def)
qed

lemma consume_images_from:
  assumes "length (fs p) = 16 + 784 * n"
  shows "j \<le> n \<Longrightarrow> consume k (dataset_images ops fs p) (16 + 784 * j) =
    (map (\<lambda>i. pixels ops (record_at (fs p) 16 784 i)) [j..<min (j + k) n],
     if j + k \<le> n then Pending else Exhausted)"
proof (induction k arbitrary: j)
  case 0
  then show ?case by simp
next
  case (Suc k)
  note next_j = images_get_next[where fs=fs and p=p and n=n and j=j, OF assms]
  show ?case
  proof (cases "j < n")
    case True
    then have "[j..<min (j + Suc k) n] = j # [Suc j..<min (Suc j + k) n]"
      by (simp add: upt_conv_Cons)
    then show ?thesis
      using True Suc.IH[of "Suc j"] by (simp add: next_j)
  next
    case False
    then show ?thesis by (simp add: next_j)
  qed
qed

lemma initial_dataset_images: "initial (dataset_images ops fs p) = 16"
  by (simp add: dataset_images_def Dataset_map_def FixedLengthRecordDataset_def)

lemma consume_images:
  assumes "length (fs p) = 16 + 784 * n"
  shows "consume k (dataset_images ops fs p) (initial (dataset_images ops fs p)) =
    (map (\<lambda>i. pixels ops (record_at (fs p) 16 784 i)) [0..<min k n],
     if k \<le> n then Pending else Exhausted)"
proof -
  have "consume k (dataset_images ops fs p) (16 + 784 * 0) =
    (map (\<lambda>i. pixels ops (record_at (fs p) 16 784 i)) [0..<min (0 + k) n],
     if 0 + k \<le> n then Pending else Exhausted)"
    using assms by (intro consume_images_from) simp_all
  then show ?thesis by (simp add: initial_dataset_images)
qed










subsection \<open>Pairing\<close>

lemma get_next_zip:
  "get_next (Dataset_zip a b) (s, t) =
     (case get_next a s of
        Element x s' \<Rightarrow>
          (case get_next b t of
             Element y t' \<Rightarrow> Element (x, y) (s', t')
           | EndOfSequence \<Rightarrow> EndOfSequence
           | Failure e \<Rightarrow> Failure e)
      | EndOfSequence \<Rightarrow> EndOfSequence
      | Failure e \<Rightarrow> Failure e)"
  by (simp add: Dataset_zip_def)

lemma consume_zip_elements:
  "fst (consume k (Dataset_zip a b) (s, t)) = zip (fst (consume k a s)) (fst (consume k b t))"
proof (induction k arbitrary: s t)
  case 0
  then show ?case by simp
next
  case (Suc k)
  show ?case
  proof (cases "get_next a s")
    case (Element x s')
    note a = this
    show ?thesis
    proof (cases "get_next b t")
      case (Element y t')
      then show ?thesis
        using a Suc.IH[of s' t']
        by (simp add: get_next_zip case_prod_beta)
    qed (simp_all add: a get_next_zip case_prod_beta)
  qed (simp_all add: get_next_zip)
qed

lemma consume_zip_first_ends:
  "snd (consume k a s) = Exhausted \<Longrightarrow>
   length (fst (consume k a s)) \<le> length (fst (consume k b t)) \<Longrightarrow>
   snd (consume k (Dataset_zip a b) (s, t)) = Exhausted"
proof (induction k arbitrary: s t)
  case 0
  then show ?case by simp
next
  case (Suc k)
  show ?case
  proof (cases "get_next a s")
    case (Element x s')
    note a = this
    show ?thesis
    proof (cases "get_next b t")
      case (Element y t')
      then show ?thesis
        using a Suc.prems Suc.IH[of s' t']
        by (simp add: get_next_zip case_prod_beta)
    next
      case EndOfSequence
      then show ?thesis by (simp add: a get_next_zip)
    next
      case (Failure e)
      then show ?thesis
        using a Suc.prems by (simp add: get_next_zip case_prod_beta)
    qed
  next
    case EndOfSequence
    then show ?thesis by (simp add: get_next_zip)
  next
    case (Failure e)
    then show ?thesis using Suc.prems by (simp add: get_next_zip case_prod_beta)
  qed
qed

lemma consume_zip_second_ends:
  "snd (consume k b t) = Exhausted \<Longrightarrow>
   length (fst (consume k b t)) < length (fst (consume k a s)) \<Longrightarrow>
   snd (consume k (Dataset_zip a b) (s, t)) = Exhausted"
proof (induction k arbitrary: s t)
  case 0
  then show ?case by simp
next
  case (Suc k)
  show ?case
  proof (cases "get_next a s")
    case (Element x s')
    note a = this
    show ?thesis
    proof (cases "get_next b t")
      case (Element y t')
      then show ?thesis
        using a Suc.prems Suc.IH[of t' s']
        by (simp add: get_next_zip case_prod_beta)
    next
      case EndOfSequence
      then show ?thesis by (simp add: a get_next_zip)
    next
      case (Failure e)
      then show ?thesis using Suc.prems by (simp add: get_next_zip case_prod_beta)
    qed
  next
    case EndOfSequence
    then show ?thesis by (simp add: get_next_zip)
  next
    case (Failure e)
    then show ?thesis using Suc.prems by (simp add: get_next_zip case_prod_beta)
  qed
qed

text \<open>C6. For any two datasets, what \<open>Dataset.zip\<close> yields in \<open>k\<close> requests is the
  position-wise pairing of what its components yield in \<open>k\<close> requests, so it has
  as many elements as the shorter of the two; it reports the end of the sequence as
  soon as one component does (having yielded that component's elements, the other
  having at least as many). When the components end after \<open>n\<close> elements each, it
  yields exactly \<open>n\<close> pairs and ends, and pair \<open>i\<close> is element \<open>i\<close> of the first
  with element \<open>i\<close> of the second. One request to it is one request to each
  component: both move on by one element.\<close>

theorem zip_dataset_pairs:
  "fst (consume k (Dataset_zip a b) (s, t)) = zip (fst (consume k a s)) (fst (consume k b t)) \<and>
   length (fst (consume k (Dataset_zip a b) (s, t)))
     = min (length (fst (consume k a s))) (length (fst (consume k b t))) \<and>
   (snd (consume k a s) = Exhausted \<and>
      length (fst (consume k a s)) \<le> length (fst (consume k b t))
      \<longrightarrow> snd (consume k (Dataset_zip a b) (s, t)) = Exhausted) \<and>
   (snd (consume k b t) = Exhausted \<and>
      length (fst (consume k b t)) < length (fst (consume k a s))
      \<longrightarrow> snd (consume k (Dataset_zip a b) (s, t)) = Exhausted) \<and>
   (consume k a s = (xs, Exhausted) \<and> consume k b t = (ys, Exhausted) \<and>
      length xs = n \<and> length ys = n
      \<longrightarrow> consume k (Dataset_zip a b) (s, t) = (zip xs ys, Exhausted) \<and>
          length (zip xs ys) = n \<and>
          (\<forall>i<n. zip xs ys ! i = (xs ! i, ys ! i))) \<and>
   (get_next a s = Element x s' \<and> get_next b t = Element y t'
      \<longrightarrow> get_next (Dataset_zip a b) (s, t) = Element (x, y) (s', t'))"
proof (intro conjI impI)
  show el: "fst (consume k (Dataset_zip a b) (s, t))
              = zip (fst (consume k a s)) (fst (consume k b t))"
    by (rule consume_zip_elements)
  show "length (fst (consume k (Dataset_zip a b) (s, t)))
     = min (length (fst (consume k a s))) (length (fst (consume k b t)))"
    by (simp add: el)
  show "snd (consume k (Dataset_zip a b) (s, t)) = Exhausted"
    if "snd (consume k a s) = Exhausted \<and>
        length (fst (consume k a s)) \<le> length (fst (consume k b t))"
    using that by (intro consume_zip_first_ends) simp_all
  show "snd (consume k (Dataset_zip a b) (s, t)) = Exhausted"
    if "snd (consume k b t) = Exhausted \<and>
        length (fst (consume k b t)) < length (fst (consume k a s))"
    using that by (intro consume_zip_second_ends) simp_all
next
  assume eq: "consume k a s = (xs, Exhausted) \<and> consume k b t = (ys, Exhausted) \<and>
      length xs = n \<and> length ys = n"
  have "fst (consume k (Dataset_zip a b) (s, t)) = zip xs ys"
    using eq by (simp add: consume_zip_elements)
  moreover have "snd (consume k (Dataset_zip a b) (s, t)) = Exhausted"
    using eq by (intro consume_zip_first_ends) simp_all
  ultimately show "consume k (Dataset_zip a b) (s, t) = (zip xs ys, Exhausted)"
    by (simp add: prod_eq_iff)
  show "length (zip xs ys) = n" using eq by simp
  show "\<forall>i<n. zip xs ys ! i = (xs ! i, ys ! i)" using eq by simp
next
  assume "get_next a s = Element x s' \<and> get_next b t = Element y t'"
  then show "get_next (Dataset_zip a b) (s, t) = Element (x, y) (s', t')"
    by (simp add: get_next_zip)
qed


subsection \<open>Labels\<close>

lemma labels_get_next:
  assumes "length (fs q) = 8 + n"
  shows "get_next (dataset_labels fs q) (8 + j) =
    (if j < n then Element (uint (fs q ! (8 + j))) (8 + Suc j) else EndOfSequence)"
proof (cases "j < n")
  case True
  then have "take 1 (drop (8 + j) (fs q)) = [fs q ! (8 + j)]"
    using assms by (simp add: take_Suc_conv_app_nth)
  moreover have "get_next (FixedLengthRecordDataset fs q 1 8) (8 + j)
      = Element (take 1 (drop (8 + j) (fs q))) (8 + j + 1)"
    using reader_get_next[of fs q 8 1 n "8 + j"] assms True by simp
  ultimately show ?thesis
    using True by (simp add: dataset_labels_def Dataset_map_def decode_label_def)
next
  case False
  then have "get_next (FixedLengthRecordDataset fs q 1 8) (8 + j) = EndOfSequence"
    using reader_get_next[of fs q 8 1 n "8 + j"] assms by simp
  then show ?thesis
    using False by (simp add: dataset_labels_def Dataset_map_def)
qed

lemma consume_labels_from:
  assumes "length (fs q) = 8 + n"
  shows "j \<le> n \<Longrightarrow> consume k (dataset_labels fs q) (8 + j) =
    (map (\<lambda>i. uint (fs q ! (8 + i))) [j..<min (j + k) n],
     if j + k \<le> n then Pending else Exhausted)"
proof (induction k arbitrary: j)
  case 0
  then show ?case by simp
next
  case (Suc k)
  note next_j = labels_get_next[where fs=fs and q=q and n=n and j=j, OF assms]
  show ?case
  proof (cases "j < n")
    case True
    then have "[j..<min (j + Suc k) n] = j # [Suc j..<min (Suc j + k) n]"
      by (simp add: upt_conv_Cons)
    then show ?thesis
      using True Suc.IH[of "Suc j"] by (simp add: next_j)
  next
    case False
    then show ?thesis by (simp add: next_j)
  qed
qed

lemma initial_dataset_labels: "initial (dataset_labels fs q) = 8"
  by (simp add: dataset_labels_def Dataset_map_def FixedLengthRecordDataset_def)

lemma consume_labels:
  assumes "length (fs q) = 8 + n"
  shows "consume k (dataset_labels fs q) (initial (dataset_labels fs q)) =
    (map (\<lambda>i. uint (fs q ! (8 + i))) [0..<min k n],
     if k \<le> n then Pending else Exhausted)"
proof -
  have "consume k (dataset_labels fs q) (8 + 0) =
    (map (\<lambda>i. uint (fs q ! (8 + i))) [0..<min (0 + k) n],
     if 0 + k \<le> n then Pending else Exhausted)"
    using assms by (intro consume_labels_from) simp_all
  then show ?thesis by (simp add: initial_dataset_labels)
qed

theorem zip_dataset_pairs_witness:
  "consume 3
     (Dataset_zip
        (dataset_images example_ops
           (\<lambda>_. idx_image_file 2051 2 28 28 (replicate 1568 7)) ''images'')
        (dataset_labels (\<lambda>_. idx_labels_file 2049 2 [5, 9]) ''labels''))
     (16, 8)
   = ([(pixels example_ops (record_at (idx_image_file 2051 2 28 28 (replicate 1568 7)) 16 784 0), 5),
       (pixels example_ops (record_at (idx_image_file 2051 2 28 28 (replicate 1568 7)) 16 784 1), 9)],
      Exhausted)"
proof -
  let ?a = "dataset_images example_ops
              (\<lambda>_. idx_image_file 2051 2 28 28 (replicate 1568 7)) ''images''"
  let ?b = "dataset_labels (\<lambda>_. idx_labels_file 2049 2 [5, 9]) ''labels''"
  let ?xs = "[pixels example_ops (record_at (idx_image_file 2051 2 28 28 (replicate 1568 7)) 16 784 0),
              pixels example_ops (record_at (idx_image_file 2051 2 28 28 (replicate 1568 7)) 16 784 1)]"
  have "length ((\<lambda>_. idx_image_file 2051 2 28 28 (replicate 1568 7)) ''images'') = 16 + 784 * 2"
    by (simp add: length_image_file)
  note ca = consume_images[where fs="\<lambda>_. idx_image_file 2051 2 28 28 (replicate 1568 7)"
              and p="''images''" and n=2 and k=3
              and ops=example_ops, OF this]
  have "length ((\<lambda>_. idx_labels_file 2049 2 [5, 9]) ''labels'') = 8 + 2"
    by (simp add: length_labels_file)
  note cb = consume_labels[where fs="\<lambda>_. idx_labels_file 2049 2 [5, 9]"
              and q="''labels''" and n=2 and k=3, OF this]
  have upt: "[0..<2] = [0, Suc 0]"
    by (simp add: upt_conv_Cons)
  have a: "consume 3 ?a 16 = (?xs, Exhausted)"
    using ca by (simp add: initial_dataset_images upt)
  have b: "consume 3 ?b 8 = ([5, 9], Exhausted)"
    using cb by (simp add: initial_dataset_labels upt idx_labels_file_def be_bytes_def)
  show ?thesis
    using zip_dataset_pairs [of 3 ?a ?b 16 8 ?xs "[5, 9]" 2] a b
    by simp
qed


subsection \<open>The whole of dataset\<close>

lemma consume_zip_pending:
  "snd (consume k a s) = Pending \<Longrightarrow> snd (consume k b t) = Pending \<Longrightarrow>
   snd (consume k (Dataset_zip a b) (s, t)) = Pending"
proof (induction k arbitrary: s t)
  case 0
  then show ?case by simp
next
  case (Suc k)
  show ?case
  proof (cases "get_next a s")
    case (Element x s')
    note a = this
    show ?thesis
    proof (cases "get_next b t")
      case (Element y t')
      then show ?thesis
        using a Suc.prems Suc.IH[of s' t']
        by (simp add: get_next_zip case_prod_beta)
    qed (use Suc.prems in \<open>simp_all add: a\<close>)
  qed (use Suc.prems in simp_all)
qed

lemma zip_map_upt:
  "zip (map f [0..<a]) (map g [0..<b]) = map (\<lambda>j. (f j, g j)) [0..<min a b]"
  by (simp add: list_eq_iff_nth_eq)

lemma consume_dataset_zip:
  assumes "length (fs p) = 16 + 784 * n" and "length (fs q) = 8 + m"
  shows "consume k (Dataset_zip (dataset_images ops fs p) (dataset_labels fs q))
           (16, 8) =
         (map (\<lambda>j. (pixels ops (record_at (fs p) 16 784 j), uint (fs q ! (8 + j))))
            [0..<min k (min n m)],
          if k \<le> min n m then Pending else Exhausted)"
proof -
  let ?a = "dataset_images ops fs p"
  let ?b = "dataset_labels fs q"
  have a: "consume k ?a 16 = (map (\<lambda>i. pixels ops (record_at (fs p) 16 784 i)) [0..<min k n],
                              if k \<le> n then Pending else Exhausted)"
    using consume_images[where fs=fs and p=p and n=n and k=k and ops=ops,
            OF assms(1)]
    by (simp add: initial_dataset_images)
  have b: "consume k ?b 8 = (map (\<lambda>i. uint (fs q ! (8 + i))) [0..<min k m],
                             if k \<le> m then Pending else Exhausted)"
    using consume_labels[where fs=fs and q=q and n=m and k=k, OF assms(2)]
    by (simp add: initial_dataset_labels)
  have "fst (consume k (Dataset_zip ?a ?b) (16, 8)) =
        map (\<lambda>j. (pixels ops (record_at (fs p) 16 784 j), uint (fs q ! (8 + j))))
            [0..<min k (min n m)]"
    by (simp add: consume_zip_elements a b zip_map_upt min.assoc min.left_commute)
  moreover have "snd (consume k (Dataset_zip ?a ?b) (16, 8)) =
        (if k \<le> min n m then Pending else Exhausted)"
  proof (cases "k \<le> min n m")
    case True
    then have "snd (consume k (Dataset_zip ?a ?b) (16, 8)) = Pending"
      by (intro consume_zip_pending) (simp_all add: a b)
    then show ?thesis using True by simp
  next
    case False
    have "snd (consume k (Dataset_zip ?a ?b) (16, 8)) = Exhausted"
    proof (cases "n \<le> m")
      case True
      with False show ?thesis
        by (intro consume_zip_first_ends) (simp_all add: a b)
    next
      case m: False
      with False show ?thesis
        by (intro consume_zip_second_ends) (simp_all add: a b)
    qed
    then show ?thesis using False by simp
  qed
  ultimately show ?thesis by (simp add: prod_eq_iff)
qed

text \<open>The whole of \<open>dataset\<close>. When the image file has a valid header and \<open>n\<close>
  whole records, and the label file has a valid header and \<open>m\<close> labels,
  \<open>dataset\<close> returns a dataset that yields exactly \<open>min n m\<close> pairs, pair \<open>j\<close>
  being the pixels of record \<open>j\<close> with label \<open>j\<close>, and then ends without an
  error: the counts in the two headers play no part, and a longer file is cut to
  the shorter one silently.\<close>

theorem dataset_yields_pairs:
  assumes "length (fs (download d i)) = 16 + 784 * n"
    and "length (fs (download d l)) = 8 + m"
    and "word_at (fs (download d i)) 0 = 2051"
    and "word_at (fs (download d i)) 8 = 28"
    and "word_at (fs (download d i)) 12 = 28"
    and "word_at (fs (download d l)) 0 = 2049"
  shows "case dataset ops fs d i l of
           Inl e \<Rightarrow> False
         | Inr z \<Rightarrow>
             consume k z (initial z) =
               (map (\<lambda>j. (pixels ops (record_at (fs (download d i)) 16 784 j),
                          uint (fs (download d l) ! (8 + j))))
                  [0..<min k (min n m)],
                if k \<le> min n m then Pending else Exhausted)"
proof -
  have "check_image_file_header fs (download d i) = Inr PyNone"
    using assms by (simp add: check_image_file_header_full)
  moreover have "check_labels_file_header fs (download d l) = Inr PyNone"
    using assms by (simp add: check_labels_file_header_full)
  ultimately have "dataset ops fs d i l =
      Inr (Dataset_zip (dataset_images ops fs (download d i))
                       (dataset_labels fs (download d l)))"
    by (simp add: dataset_def Let_def)
  moreover have "initial (Dataset_zip (dataset_images ops fs (download d i))
                       (dataset_labels fs (download d l))) = (16, 8)"
    by (simp add: Dataset_zip_def initial_dataset_images initial_dataset_labels)
  ultimately show ?thesis
    using consume_dataset_zip[where fs=fs and p="download d i" and q="download d l"
            and n=n and m=m and k=k and ops=ops, OF assms(1) assms(2)]
    by simp
qed

theorem dataset_yields_pairs_witness:
  "case dataset example_ops
          (\<lambda>path. if path = ''data/images'' then idx_image_file 2051 1 28 28 (replicate 784 255)
                   else idx_labels_file 2049 1 [7])
          ''data'' ''images'' ''labels'' of
     Inl e \<Rightarrow> False
   | Inr z \<Rightarrow>
       consume 2 z (initial z) =
         ([(pixels example_ops
              (record_at (idx_image_file 2051 1 28 28 (replicate 784 255)) 16 784 0), 7)],
          Exhausted)"
proof -
  let ?fs = "\<lambda>path. if path = ''data/images'' then idx_image_file 2051 1 28 28 (replicate 784 255)
                   else idx_labels_file 2049 1 [7]"
  have i: "?fs (download ''data'' ''images'') = idx_image_file 2051 1 28 28 (replicate 784 255)"
    by (simp add: download_def)
  have l: "?fs (download ''data'' ''labels'') = idx_labels_file 2049 1 [7]"
    by (simp add: download_def)
  have "idx_labels_file 2049 1 [7] ! 8 = 7"
    by (simp add: idx_labels_file_def be_bytes_def)
  then show ?thesis
    using dataset_yields_pairs
            [where fs="?fs" and d="''data''" and i="''images''" and l="''labels''" and n=1
               and m=1 and ops=example_ops and k=2]
    unfolding i l
    by (simp add: length_image_file length_labels_file word_at_image_file word_at_labels_file
          split: sum.splits)
qed

subsection \<open>A file cut off inside a record\<close>




end
